theory Spec2Isabelle
  imports Main "HOL-Library.Word"
begin

unbundle bit_operations_syntax

section \<open>Wire format (protocol/protocol.go)\<close>

type_synonym byte = "8 word"
type_synonym uint32 = "32 word"
type_synonym uint64 = "64 word"
type_synonym int16 = "16 word"

record Version =
  Major :: uint32
  Minor :: uint32
  Hash :: uint32

definition GenProtocolVersion :: "Version \<Rightarrow> uint64" where
  "GenProtocolVersion version =
     push_bit 40 (ucast (Major version)) OR push_bit 32 (ucast (Minor version))
       OR ucast (Hash version)"

definition SplitProtocolVersion :: "uint64 \<Rightarrow> Version" where
  "SplitProtocolVersion protocol =
     \<lparr>Major = ucast (drop_bit 40 (protocol AND push_bit 40 0xFF) AND 0xFF),
      Minor = ucast (drop_bit 32 (protocol AND push_bit 32 0xFF) AND 0xFF),
      Hash = ucast (protocol AND 0xFFFFFFFF)\<rparr>"

definition CurrentProtocolVersion :: Version where
  "CurrentProtocolVersion = \<lparr>Major = 0, Minor = 1, Hash = 0\<rparr>"

record MessageHeader =
  PacketNumber :: uint32
  ProtocolVersion :: uint64
  MessageType :: uint32
  Reserved :: uint32
  BodySize :: uint32

record ClientSync =
  AllowControl :: uint32
  Gains :: "uint32 list"
  sync_DeviceCenterFrequency :: uint32
  IQCenterFrequency :: uint32
  sync_SmartCenterFrequency :: uint32
  MinimumIQCenterFrequency :: uint32
  MaximumIQCenterFrequency :: uint32
  MinimumSmartFrequency :: uint32
  MaximumSmartFrequency :: uint32

text \<open>\<^verbatim>\<open>binary.Size(MessageHeader{})\<close>: the five fields packed without padding,
  4 + 8 + 4 + 4 + 4 bytes.\<close>

definition MessageHeaderSize :: uint32 where
  "MessageHeaderSize = 24"

definition MaxMessageBodySize :: uint32 where
  "MaxMessageBodySize = push_bit 20 1"

text \<open>\<^verbatim>\<open>binary.LittleEndian\<close>: the first byte is the least significant.\<close>

fun le_uint :: "byte list \<Rightarrow> 'a::len word" where
  "le_uint [] = 0"
| "le_uint (b # bs) = ucast b OR push_bit 8 (le_uint bs)"

definition field_at :: "byte list \<Rightarrow> nat \<Rightarrow> nat \<Rightarrow> 'a::len word" where
  "field_at bs off n = le_uint (take n (drop off bs))"

text \<open>\<^verbatim>\<open>binary.Read(buf, binary.LittleEndian, &header)\<close> on a reader over \<open>bs\<close>: an
  error (here \<open>None\<close>) when fewer bytes than the record's size are left.\<close>

definition binaryRead_MessageHeader :: "byte list \<Rightarrow> MessageHeader option" where
  "binaryRead_MessageHeader bs =
     (if length bs < 24 then None
      else Some \<lparr>PacketNumber = field_at bs 0 4, ProtocolVersion = field_at bs 4 8,
                 MessageType = field_at bs 12 4, Reserved = field_at bs 16 4,
                 BodySize = field_at bs 20 4\<rparr>)"

definition binaryRead_ClientSync :: "byte list \<Rightarrow> ClientSync option" where
  "binaryRead_ClientSync bs =
     (if length bs < 44 then None
      else Some \<lparr>AllowControl = field_at bs 0 4,
                 Gains = [field_at bs 4 4, field_at bs 8 4, field_at bs 12 4],
                 sync_DeviceCenterFrequency = field_at bs 16 4,
                 IQCenterFrequency = field_at bs 20 4,
                 sync_SmartCenterFrequency = field_at bs 24 4,
                 MinimumIQCenterFrequency = field_at bs 28 4,
                 MaximumIQCenterFrequency = field_at bs 32 4,
                 MinimumSmartFrequency = field_at bs 36 4,
                 MaximumSmartFrequency = field_at bs 40 4\<rparr>)"

text \<open>\<^verbatim>\<open>binary.Read\<close> into a slice of \<open>n\<close> 16-bit integers.  It needs \<open>2 * n\<close>
  bytes; with fewer it returns an error and leaves the slice as \<^verbatim>\<open>make\<close> created it
  (all zero).  Both callers discard the error.\<close>

fun le_int16s :: "byte list \<Rightarrow> int16 list" where
  "le_int16s (b0 # b1 # bs) = (ucast b0 OR push_bit 8 (ucast b1)) # le_int16s bs"
| "le_int16s bs = []"

definition binaryRead_int16s :: "nat \<Rightarrow> byte list \<Rightarrow> int16 list" where
  "binaryRead_int16s n bs =
     (if length bs < 2 * n then replicate n 0 else le_int16s (take (2 * n) bs))"

section \<open>Client (client/radioclient.go)\<close>

text \<open>Modelled from the spec: the declaration of the two parser phases the client names
  \<^verbatim>\<open>protocol.ParserAcquiringHeader\<close> and \<^verbatim>\<open>protocol.ParserReadingData\<close>.  The
  spec gives the phase as one of two states, acquiring the header or reading the body.\<close>

datatype parser_phase = ParserAcquiringHeader | ParserReadingData

text \<open>The fields of the device record that the client reads or writes.\<close>

record DeviceInfo =
  DeviceType :: uint32
  DeviceSerial :: uint32
  MaximumSampleRate :: uint32
  MinimumFrequency :: uint32
  MaximumFrequency :: uint32
  DecimationStages :: uint32
  MaximumGainValue :: uint32

record ComplexInt16 =
  Real :: int16
  Imag :: int16

text \<open>The second argument of \<^verbatim>\<open>Callback.OnData\<close>: \<^verbatim>\<open>nil\<close> or a batch of samples.\<close>

datatype callback_data = Nil_data | Samples "ComplexInt16 list"

text \<open>The client names constants of its protocol package whose declarations are not part
  of the sources at hand (message types, stream types, the tags of sample batches, the
  invalid device type) and decodes a fixed-layout device record whose layout is declared
  there too.  They are parameters of the model; no theorem below assumes anything about
  them.\<close>

record protocol_consts =
  MsgTypeDeviceInfo :: uint32
  MsgTypeClientSync :: uint32
  MsgTypeIQ :: uint32
  MsgTypeSmartIQ :: uint32
  MsgTypeReadSetting :: uint32
  StreamTypeIQ :: uint32
  StreamTypeSmartIQ :: uint32
  StreamTypeCombined :: uint32
  SamplesComplex32 :: int
  SmartSamplesComplex32 :: int
  DeviceInvalid :: uint32
  binaryRead_DeviceInfo :: "byte list \<Rightarrow> DeviceInfo option"

text \<open>The fields of \<^verbatim>\<open>RadioClient\<close> that the parser, the message handlers and
  \<^verbatim>\<open>cleanup\<close> read or write.  \<open>callback\<close> is \<open>None\<close> for a \<^verbatim>\<open>nil\<close> callback;
  a callback that is set is represented by the calls of \<^verbatim>\<open>OnData\<close> it has received,
  oldest first.\<close>

record RadioClient =
  callback :: "(int \<times> callback_data) list option"
  terminated :: bool
  gotDeviceInfo :: bool
  gotSyncInfo :: bool
  streamingMode :: uint32
  gain :: uint32
  parserPhase :: parser_phase
  deviceInfo :: DeviceInfo
  header :: MessageHeader
  lastSequenceNumber :: uint32
  droppedBuffers :: uint32
  downStreamBytes :: uint64
  parserPosition :: uint32
  bodyBuffer :: "byte list"
  headerBuffer :: "byte list"
  Streaming :: bool
  CanControl :: bool
  MinimumTunableFrequency :: uint32
  MaximumTunableFrequency :: uint32
  DeviceCenterFrequency :: uint32
  SmartCenterFrequency :: uint32

text \<open>A Go panic, with the client as it was when the panic was raised.\<close>

datatype panic =
    IndexOutOfRange
  | ReadError
  | UnsupportedProtocolVersion
  | BodySizeExceeded

type_synonym 'a outcome = "(panic \<times> RadioClient) + 'a"

definition min_u32 :: "uint32 \<Rightarrow> uint32 \<Rightarrow> uint32" where
  "min_u32 a b = (if a < b then a else b)"

definition cleanup :: "protocol_consts \<Rightarrow> RadioClient \<Rightarrow> RadioClient" where
  "cleanup K f =
     f\<lparr>deviceInfo := (deviceInfo f)\<lparr>DeviceType := DeviceInvalid K, DeviceSerial := 0,
          MaximumSampleRate := 0, MinimumFrequency := 0, MaximumFrequency := 0\<rparr>,
       gain := 0, CanControl := False, gotDeviceInfo := False, gotSyncInfo := False,
       lastSequenceNumber := 0xFFFFFFFF, droppedBuffers := 0, downStreamBytes := 0,
       parserPhase := ParserAcquiringHeader, parserPosition := 0,
       Streaming := False, terminated := True\<rparr>"

definition MakeRadioClient :: "protocol_consts \<Rightarrow> RadioClient" where
  "MakeRadioClient K =
     cleanup K
       \<lparr>callback = None, terminated = False, gotDeviceInfo = False, gotSyncInfo = False,
        streamingMode = StreamTypeIQ K, gain = 0, parserPhase = ParserAcquiringHeader,
        deviceInfo = \<lparr>DeviceType = 0, DeviceSerial = 0, MaximumSampleRate = 0,
          MinimumFrequency = 0, MaximumFrequency = 0, DecimationStages = 0,
          MaximumGainValue = 0\<rparr>,
        header = \<lparr>PacketNumber = 0, ProtocolVersion = 0, MessageType = 0, Reserved = 0,
          BodySize = 0\<rparr>,
        lastSequenceNumber = 0, droppedBuffers = 0, downStreamBytes = 0,
        parserPosition = 0, bodyBuffer = [],
        headerBuffer = replicate (unat MessageHeaderSize) 0,
        Streaming = False, CanControl = False, MinimumTunableFrequency = 0,
        MaximumTunableFrequency = 0, DeviceCenterFrequency = 0, SmartCenterFrequency = 0\<rparr>"

definition SetCallback :: "RadioClient \<Rightarrow> RadioClient" where
  "SetCallback f = f\<lparr>callback := Some []\<rparr>"

text \<open>The client as the receiving thread first sees it: \<^verbatim>\<open>Connect\<close> runs
  \<^verbatim>\<open>cleanup\<close> and clears \<open>terminated\<close> and the two readiness flags, then
  \<^verbatim>\<open>threadLoop\<close> resets the phase and the cursor before its first read.\<close>

definition connected :: "protocol_consts \<Rightarrow> RadioClient \<Rightarrow> RadioClient" where
  "connected K f =
     (cleanup K f)\<lparr>terminated := False, gotSyncInfo := False, gotDeviceInfo := False,
        parserPhase := ParserAcquiringHeader, parserPosition := 0\<rparr>"

text \<open>The copy loop \<^verbatim>\<open>for i := uint32(0); i < toWrite; i++ { dst[i+pos] = buffer[i] }\<close>
  over the first \<open>toWrite\<close> bytes of the chunk.  The index is a 32-bit sum; a write
  past the end of \<open>dst\<close> panics, after the writes before it (result \<open>False\<close>).\<close>

fun copyBytes :: "byte list \<Rightarrow> uint32 \<Rightarrow> uint32 \<Rightarrow> byte list \<Rightarrow> byte list \<times> bool" where
  "copyBytes dst pos i [] = (dst, True)"
| "copyBytes dst pos i (b # src) =
     (if unat (i + pos) < length dst
      then copyBytes (dst[unat (i + pos) := b]) pos (i + 1) src
      else (dst, False))"

text \<open>\<^verbatim>\<open>parseHeader\<close>; the third argument is the local \<open>consumed\<close>.  The loop has no
  bound of its own, so not returning is the value \<open>None\<close>.\<close>

partial_function (option) parseHeader_loop ::
    "RadioClient \<Rightarrow> byte list \<Rightarrow> uint32 \<Rightarrow> (uint32 \<times> RadioClient) outcome option" where
  "parseHeader_loop f buffer consumed =
     (if buffer \<noteq> [] then
        (let toWrite = min_u32 (MessageHeaderSize - parserPosition f) (of_nat (length buffer)) in
         case copyBytes (headerBuffer f) (parserPosition f) 0 (take (unat toWrite) buffer) of
           (hb, written) \<Rightarrow>
            if \<not> written then Some (Inl (IndexOutOfRange, f\<lparr>headerBuffer := hb\<rparr>))
            else
            (let f1 = f\<lparr>headerBuffer := hb, parserPosition := parserPosition f + toWrite\<rparr> in
             if parserPosition f1 = MessageHeaderSize then
               (let f2 = f1\<lparr>parserPosition := 0\<rparr> in
                case binaryRead_MessageHeader (headerBuffer f2) of
                  None \<Rightarrow> Some (Inl (ReadError, f2))
                | Some h \<Rightarrow>
                    Some (Inr (consumed + toWrite,
                      if BodySize h > 0
                      then f2\<lparr>header := h, parserPhase := ParserReadingData\<rparr>
                      else f2\<lparr>header := h\<rparr>)))
             else parseHeader_loop f1 (drop (unat toWrite) buffer) (consumed + toWrite)))
      else Some (Inr (consumed, f)))"

definition parseHeader ::
    "RadioClient \<Rightarrow> byte list \<Rightarrow> (uint32 \<times> RadioClient) outcome option" where
  "parseHeader f buffer = parseHeader_loop f buffer 0"

partial_function (option) parseBody_loop ::
    "RadioClient \<Rightarrow> byte list \<Rightarrow> uint32 \<Rightarrow> (uint32 \<times> RadioClient) outcome option" where
  "parseBody_loop f buffer consumed =
     (if buffer \<noteq> [] then
        (let toWrite = min_u32 (BodySize (header f) - parserPosition f) (of_nat (length buffer)) in
         case copyBytes (bodyBuffer f) (parserPosition f) 0 (take (unat toWrite) buffer) of
           (bb, written) \<Rightarrow>
            if \<not> written then Some (Inl (IndexOutOfRange, f\<lparr>bodyBuffer := bb\<rparr>))
            else
            (let f1 = f\<lparr>bodyBuffer := bb, parserPosition := parserPosition f + toWrite\<rparr> in
             if parserPosition f1 = BodySize (header f1) then
               Some (Inr (consumed + toWrite,
                 f1\<lparr>parserPosition := 0, parserPhase := ParserAcquiringHeader\<rparr>))
             else parseBody_loop f1 (drop (unat toWrite) buffer) (consumed + toWrite)))
      else Some (Inr (consumed, f)))"

definition parseBody ::
    "RadioClient \<Rightarrow> byte list \<Rightarrow> (uint32 \<times> RadioClient) outcome option" where
  "parseBody f buffer = parseBody_loop f buffer 0"

text \<open>\<^verbatim>\<open>f.callback.OnData(dType, data)\<close>, called only where the callback is set.\<close>

definition OnData :: "int \<Rightarrow> callback_data \<Rightarrow> RadioClient \<Rightarrow> RadioClient" where
  "OnData dType d f = f\<lparr>callback := map_option (\<lambda>calls. calls @ [(dType, d)]) (callback f)\<rparr>"

definition processDeviceInfo :: "protocol_consts \<Rightarrow> RadioClient \<Rightarrow> RadioClient outcome" where
  "processDeviceInfo K f =
     (case binaryRead_DeviceInfo K (bodyBuffer f) of
        None \<Rightarrow> Inl (ReadError, f)
      | Some dInfo \<Rightarrow> Inr (f\<lparr>deviceInfo := dInfo, gotDeviceInfo := True\<rparr>))"

definition processClientSync :: "protocol_consts \<Rightarrow> RadioClient \<Rightarrow> RadioClient outcome" where
  "processClientSync K f =
     (case binaryRead_ClientSync (bodyBuffer f) of
        None \<Rightarrow> Inl (ReadError, f)
      | Some clientSync \<Rightarrow>
         (let f1 = f\<lparr>CanControl := (AllowControl clientSync \<noteq> 0),
                      gain := Gains clientSync ! 0,
                      DeviceCenterFrequency := sync_DeviceCenterFrequency clientSync,
                      SmartCenterFrequency := sync_SmartCenterFrequency clientSync\<rparr>;
              f2 = (if streamingMode f1 = StreamTypeCombined K
                       \<or> streamingMode f1 = StreamTypeSmartIQ K
                    then f1\<lparr>MinimumTunableFrequency := MinimumSmartFrequency clientSync,
                           MaximumTunableFrequency := MaximumSmartFrequency clientSync\<rparr>
                    else if streamingMode f1 = StreamTypeIQ K
                    then f1\<lparr>MinimumTunableFrequency := MinimumIQCenterFrequency clientSync,
                           MaximumTunableFrequency := MaximumIQCenterFrequency clientSync\<rparr>
                    else f1);
              f3 = f2\<lparr>gotSyncInfo := True\<rparr>
          in Inr (if callback f3 \<noteq> None
                  then OnData (uint (MsgTypeClientSync K)) Nil_data f3 else f3)))"

text \<open>The loop \<^verbatim>\<open>for i := uint32(0); i < sampleCount; i++\<close> of \<^verbatim>\<open>processIQ\<close> and
  \<^verbatim>\<open>processSmartIQ\<close>, which stores the pair \<open>(tmp[i*2], tmp[i*2+1])\<close> at index \<open>i\<close>.
  \<open>c16arr\<close> has \<open>sampleCount\<close> elements and \<open>tmp\<close> twice as many, so every index of the
  loop is in range.\<close>

function fillC16 :: "uint32 \<Rightarrow> uint32 \<Rightarrow> int16 list \<Rightarrow> ComplexInt16 list \<Rightarrow> ComplexInt16 list" where
  "fillC16 i sampleCount tmp c16arr =
     (if i < sampleCount
      then fillC16 (i + 1) sampleCount tmp
             (c16arr[unat i := \<lparr>Real = tmp ! unat (i * 2), Imag = tmp ! unat (i * 2 + 1)\<rparr>])
      else c16arr)"
  by pat_completeness auto
termination
proof (relation "measure (\<lambda>(i, sampleCount, tmp, c16arr). unat sampleCount - unat i)")
  show "wf (measure (\<lambda>(i, sampleCount, tmp, c16arr). unat sampleCount - unat i))"
    by simp
next
  fix i sampleCount :: uint32 and tmp :: "int16 list" and c16arr :: "ComplexInt16 list"
  assume "i < sampleCount"
  then have "unat sampleCount - unat (i + 1) < unat sampleCount - unat i"
    by unat_arith
  then show "((i + 1, sampleCount, tmp,
                c16arr[unat i := \<lparr>Real = tmp ! unat (i * 2), Imag = tmp ! unat (i * 2 + 1)\<rparr>]),
              (i, sampleCount, tmp, c16arr))
             \<in> measure (\<lambda>(i, sampleCount, tmp, c16arr). unat sampleCount - unat i)"
    by simp
qed

declare fillC16.simps [simp del]

text \<open>The body that \<^verbatim>\<open>processIQ\<close> and \<^verbatim>\<open>processSmartIQ\<close> share word for word up to
  the tag they pass to the callback: the sample count, the two slices, the read of the
  16-bit integers and the loop.\<close>

definition decodeSamples :: "RadioClient \<Rightarrow> ComplexInt16 list" where
  "decodeSamples f =
     (let sampleCount = BodySize (header f) div 4;
          c16arr = replicate (unat sampleCount) \<lparr>Real = 0, Imag = 0\<rparr>;
          tmp = binaryRead_int16s (unat (sampleCount * 2)) (bodyBuffer f)
      in fillC16 0 sampleCount tmp c16arr)"

definition processIQ :: "protocol_consts \<Rightarrow> RadioClient \<Rightarrow> RadioClient" where
  "processIQ K f =
     (if callback f \<noteq> None
      then OnData (SamplesComplex32 K) (Samples (decodeSamples f)) f
      else f)"

definition processReadSetting :: "RadioClient \<Rightarrow> RadioClient" where
  "processReadSetting f = f"

definition processSmartIQ :: "protocol_consts \<Rightarrow> RadioClient \<Rightarrow> RadioClient" where
  "processSmartIQ K f =
     (if callback f \<noteq> None
      then OnData (SmartSamplesComplex32 K) (Samples (decodeSamples f)) f
      else f)"

text \<open>The \<^verbatim>\<open>switch\<close> takes the first case that matches, in the order of the source.\<close>

definition handleNewMessage :: "protocol_consts \<Rightarrow> RadioClient \<Rightarrow> RadioClient outcome" where
  "handleNewMessage K f =
     (if terminated f then Inr f
      else if MessageType (header f) = MsgTypeDeviceInfo K then processDeviceInfo K f
      else if MessageType (header f) = MsgTypeClientSync K then processClientSync K f
      else if MessageType (header f) = MsgTypeIQ K then Inr (processIQ K f)
      else if MessageType (header f) = MsgTypeSmartIQ K then Inr (processSmartIQ K f)
      else if MessageType (header f) = MsgTypeReadSetting K then Inr (processReadSetting f)
      else Inr f)"

text \<open>\<^verbatim>\<open>parseMessage\<close>, lines 221 to 224: the loop nested in the branch of the
  acquiring phase.  Its guard asks for the phase \<^verbatim>\<open>ParserReadingData\<close>.  A slice
  \<^verbatim>\<open>buffer[consumed:]\<close> is in range, since no more than the chunk holds is consumed.\<close>

partial_function (option) parseMessage_headers ::
    "RadioClient \<Rightarrow> byte list \<Rightarrow> (RadioClient \<times> byte list) outcome option" where
  "parseMessage_headers f buffer =
     (if parserPhase f = ParserReadingData \<and> buffer \<noteq> [] then
        Option.bind (parseHeader f buffer)
          (\<lambda>r. case r of
                 Inl e \<Rightarrow> Some (Inl e)
               | Inr (consumed, f1) \<Rightarrow> parseMessage_headers f1 (drop (unat consumed) buffer))
      else Some (Inr (f, buffer)))"

text \<open>Lines 220 to 242: the branch \<^verbatim>\<open>if f.parserPhase == protocol.ParserAcquiringHeader\<close>,
  with the checks of the version and of the body size and the allocation of the body
  buffer.\<close>

definition parseMessage_acquire ::
    "RadioClient \<Rightarrow> byte list \<Rightarrow> (RadioClient \<times> byte list) outcome option" where
  "parseMessage_acquire f buffer =
     (if parserPhase f = ParserAcquiringHeader then
        Option.bind (parseMessage_headers f buffer)
          (\<lambda>r. case r of
                 Inl e \<Rightarrow> Some (Inl e)
               | Inr (f1, buffer1) \<Rightarrow>
                  if parserPhase f1 = ParserReadingData then
                    (let clientMajor = Major CurrentProtocolVersion;
                         clientMinor = Minor CurrentProtocolVersion;
                         serverVersion = SplitProtocolVersion (ProtocolVersion (header f1))
                     in if clientMajor \<noteq> Major serverVersion \<or> clientMinor \<noteq> Minor serverVersion
                        then Some (Inl (UnsupportedProtocolVersion, f1))
                        else if BodySize (header f1) > MaxMessageBodySize
                        then Some (Inl (BodySizeExceeded, f1))
                        else Some (Inr (f1\<lparr>bodyBuffer :=
                               replicate (unat (BodySize (header f1))) 0\<rparr>, buffer1)))
                  else Some (Inr (f1, buffer1)))
      else Some (Inr (f, buffer)))"

text \<open>Lines 244 to 257: the branch \<^verbatim>\<open>if f.parserPhase == protocol.ParserReadingData\<close>,
  with the sequence-gap accounting and the dispatch of a completed frame.  The log line
  for a positive gap is not modelled.\<close>

definition parseMessage_read ::
    "protocol_consts \<Rightarrow> RadioClient \<Rightarrow> byte list \<Rightarrow> (RadioClient \<times> byte list) outcome option" where
  "parseMessage_read K f buffer =
     (if parserPhase f = ParserReadingData then
        Option.bind (parseBody f buffer)
          (\<lambda>r. case r of
                 Inl e \<Rightarrow> Some (Inl e)
               | Inr (consumed, f1) \<Rightarrow>
                  (let buffer1 = drop (unat consumed) buffer in
                   if parserPhase f1 = ParserAcquiringHeader then
                     (let gap = PacketNumber (header f1) - lastSequenceNumber f1 - 1;
                          f2 = f1\<lparr>lastSequenceNumber := PacketNumber (header f1),
                                  droppedBuffers := droppedBuffers f1 + gap\<rparr>
                      in case handleNewMessage K f2 of
                           Inl e \<Rightarrow> Some (Inl e)
                         | Inr f3 \<Rightarrow> Some (Inr (f3, buffer1)))
                   else Some (Inr (f1, buffer1))))
      else Some (Inr (f, buffer)))"

text \<open>The outer loop \<^verbatim>\<open>for len(buffer) > 0 && !f.terminated\<close>.  \<open>terminated\<close> is
  written by \<^verbatim>\<open>Disconnect\<close> and \<^verbatim>\<open>cleanup\<close> only, which the parser does not call.
  \<open>None\<close> is a call that does not return.\<close>

partial_function (option) parseMessage_loop ::
    "protocol_consts \<Rightarrow> RadioClient \<Rightarrow> byte list \<Rightarrow> RadioClient outcome option" where
  "parseMessage_loop K f buffer =
     (if buffer \<noteq> [] \<and> \<not> terminated f then
        Option.bind (parseMessage_acquire f buffer)
          (\<lambda>r. case r of
                 Inl e \<Rightarrow> Some (Inl e)
               | Inr (f1, buffer1) \<Rightarrow>
                  Option.bind (parseMessage_read K f1 buffer1)
                    (\<lambda>r. case r of
                           Inl e \<Rightarrow> Some (Inl e)
                         | Inr (f2, buffer2) \<Rightarrow> parseMessage_loop K f2 buffer2))
      else Some (Inr f))"

definition parseMessage ::
    "protocol_consts \<Rightarrow> RadioClient \<Rightarrow> byte list \<Rightarrow> RadioClient outcome option" where
  "parseMessage K f buffer =
     parseMessage_loop K (f\<lparr>downStreamBytes := downStreamBytes f + 1\<rparr>) buffer"

section \<open>Server (server/rpcCalls.go)\<close>

text \<open>Modelled from the spec: the declaration of the session type.  What the RPC handlers
  use of a session is its identifier and the acquisition flag that
  \<^verbatim>\<open>s.CG.IQRunning()\<close> reads and \<^verbatim>\<open>s.CG.StartIQ()\<close> sets.  The registry
  \<^verbatim>\<open>rs.sessions\<close> maps a token to a pointer to a session; a token without an entry
  reads as \<^verbatim>\<open>nil\<close>, here \<open>None\<close>.\<close>

record Session =
  ID :: string
  IQRunning :: bool

text \<open>What a handler does to the lock, to the registry map and to a device session, in
  the order of execution.  \<open>'c\<close> is a device configuration, \<open>'s\<close> a sample.\<close>

datatype ('c, 's) event =
    Lock
  | Unlock
  | MapRead string
  | MapStore string
  | MapDelete string
  | StartIQ string
  | FullStop string
  | KeepAlive string
  | TuneFrontend string 'c
  | Send "'s list"

record ('c, 's) RadioServer =
  sessions :: "string \<rightharpoonup> Session"
  trace :: "('c, 's) event list"

datatype rpc_error =
    error_provisioning
  | session_doesnt_exist
  | already_running
  | session_expired
  | send_error string

text \<open>The result of a handler: a reply, a returned error, or a nil-pointer panic.\<close>

datatype 'a rpc = Reply 'a | Failed rpc_error | NilPointerDereference

definition emit :: "('c, 's) event \<Rightarrow> ('c, 's) RadioServer \<Rightarrow> ('c, 's) RadioServer" where
  "emit e rs = rs\<lparr>trace := trace rs @ [e]\<rparr>"

text \<open>\<open>generated\<close> is what \<^verbatim>\<open>GenerateSession(d)\<close> returns.  The deferred
  \<^verbatim>\<open>Unlock\<close> runs on every return.\<close>

definition Provision ::
    "('c, 's) RadioServer \<Rightarrow> Session option \<Rightarrow> string rpc \<times> ('c, 's) RadioServer" where
  "Provision rs generated =
     (let rs1 = emit Lock rs in
      case generated of
        None \<Rightarrow> (Failed error_provisioning, emit Unlock rs1)
      | Some s \<Rightarrow>
         (Reply (ID s),
          emit Unlock ((emit (MapStore (ID s)) rs1)\<lparr>sessions := (sessions rs1)(ID s \<mapsto> s)\<rparr>)))"

definition Destroy ::
    "('c, 's) RadioServer \<Rightarrow> string \<Rightarrow> unit rpc \<times> ('c, 's) RadioServer" where
  "Destroy rs token =
     (let rs1 = emit (MapRead token) (emit Lock rs) in
      case sessions rs1 token of
        None \<Rightarrow> (Failed session_doesnt_exist, emit Unlock rs1)
      | Some s \<Rightarrow>
         (let rs2 = (emit (MapDelete token) rs1)\<lparr>sessions := (sessions rs1)(token := None)\<rparr>;
              rs3 = emit (FullStop (ID s)) rs2
          in (Reply (), emit Unlock rs3)))"

definition Tune ::
    "('c, 's) RadioServer \<Rightarrow> string \<Rightarrow> 'c \<Rightarrow> 'c rpc \<times> ('c, 's) RadioServer" where
  "Tune rs token config =
     (let rs1 = emit (MapRead token) rs in
      case sessions rs1 token of
        None \<Rightarrow> (Failed session_doesnt_exist, rs1)
      | Some s \<Rightarrow> (Reply config, emit (TuneFrontend (ID s) config) rs1))"

text \<open>What the delivery loop of \<^verbatim>\<open>RXIQ\<close> observes each time it evaluates
  \<^verbatim>\<open>s.IQFifo.Len() > 0\<close>: an empty queue (the loop sleeps and looks again), or a
  buffer, together with the error of \<^verbatim>\<open>server.Send\<close> for it (\<open>None\<close> for success)
  and the answer of \<^verbatim>\<open>s.IsFullStopped()\<close> after it.\<close>

datatype 's tick = Idle | Buffer "'s list" "string option" bool

text \<open>The loop \<^verbatim>\<open>for { for s.IQFifo.Len() > 0 { ... }; time.Sleep(...) }\<close> against a
  finite prefix of its observations; \<open>None\<close> when the loop is still running at the end
  of the prefix.  The reuse pool changes how a record is allocated, not what is sent.\<close>

fun RXIQ_loop ::
    "Session \<Rightarrow> 's tick list \<Rightarrow> ('c, 's) RadioServer \<Rightarrow> (rpc_error \<times> ('c, 's) RadioServer) option" where
  "RXIQ_loop s [] rs = None"
| "RXIQ_loop s (Idle # ticks) rs = RXIQ_loop s ticks rs"
| "RXIQ_loop s (Buffer samples sendErr expired # ticks) rs =
     (case sendErr of
        Some err \<Rightarrow> Some (send_error err, emit (Send samples) rs)
      | None \<Rightarrow>
         (let rs1 = emit (KeepAlive (ID s)) (emit (Send samples) rs) in
          if expired then Some (session_expired, rs1) else RXIQ_loop s ticks rs1))"

text \<open>\<^verbatim>\<open>RXIQ\<close>.  The two deferred calls run when the function returns, last deferred
  first: \<^verbatim>\<open>s.FullStop()\<close>, then \<^verbatim>\<open>delete(rs.sessions, sid.Token)\<close>.  With no entry
  for the token \<open>s\<close> is \<^verbatim>\<open>nil\<close>, and \<^verbatim>\<open>s.CG\<close> dereferences it.\<close>

definition RXIQ ::
    "('c, 's) RadioServer \<Rightarrow> string \<Rightarrow> 's tick list \<Rightarrow> (unit rpc \<times> ('c, 's) RadioServer) option" where
  "RXIQ rs token ticks =
     (let rs1 = emit (MapRead token) rs in
      case sessions rs1 token of
        None \<Rightarrow> Some (NilPointerDereference, rs1)
      | Some s \<Rightarrow>
         if IQRunning s then Some (Failed already_running, rs1)
         else
           (let s1 = s\<lparr>IQRunning := True\<rparr>;
                rs2 = (emit (StartIQ (ID s)) rs1)\<lparr>sessions := (sessions rs1)(token \<mapsto> s1)\<rparr>
            in case RXIQ_loop s1 ticks rs2 of
                 None \<Rightarrow> None
               | Some (err, rs3) \<Rightarrow>
                  (let rs4 = emit (FullStop (ID s1)) rs3;
                       rs5 = (emit (MapDelete token) rs4)\<lparr>sessions := (sessions rs4)(token := None)\<rparr>
                   in Some (Failed err, rs5))))"

text \<open>The lock discipline of a trace: every access to the registry map happens between a
  \<open>Lock\<close> and the next \<open>Unlock\<close>.  The first argument says whether the lock is held.\<close>

fun guarded :: "bool \<Rightarrow> ('c, 's) event list \<Rightarrow> bool" where
  "guarded held [] = True"
| "guarded held (Lock # es) = guarded True es"
| "guarded held (Unlock # es) = guarded False es"
| "guarded held (MapRead t # es) = (held \<and> guarded held es)"
| "guarded held (MapStore t # es) = (held \<and> guarded held es)"
| "guarded held (MapDelete t # es) = (held \<and> guarded held es)"
| "guarded held (e # es) = guarded held es"

text \<open>The events that release a session: the full stop of the device session and the
  removal of the registry entry.\<close>

fun cleanup_event :: "('c, 's) event \<Rightarrow> bool" where
  "cleanup_event (FullStop i) = True"
| "cleanup_event (MapDelete t) = True"
| "cleanup_event e = False"

text \<open>The events a call added to the trace.\<close>

definition added :: "('c, 's) RadioServer \<Rightarrow> ('c, 's) RadioServer \<Rightarrow> ('c, 's) event list" where
  "added rs rs' = drop (length (trace rs)) (trace rs')"


text \<open>Integer \<open>k\<close> of a body of little-endian 16-bit integers.\<close>

definition source_int16 :: "byte list \<Rightarrow> nat \<Rightarrow> int16" where
  "source_int16 bs k = ucast (bs ! (2 * k)) OR push_bit 8 (ucast (bs ! (2 * k + 1)))"

section \<open>Concrete inputs\<close>

text \<open>A frame is valid when its first 24 bytes decode to a header that carries the
  client's major and minor version and a body size within the limit, and the rest of it
  is a body of exactly that size.\<close>

definition valid_frame :: "byte list \<Rightarrow> bool" where
  "valid_frame bs =
     (case binaryRead_MessageHeader (take 24 bs) of
        None \<Rightarrow> False
      | Some h \<Rightarrow>
          Major (SplitProtocolVersion (ProtocolVersion h)) = Major CurrentProtocolVersion
          \<and> Minor (SplitProtocolVersion (ProtocolVersion h)) = Minor CurrentProtocolVersion
          \<and> BodySize h \<le> MaxMessageBodySize
          \<and> length bs = 24 + unat (BodySize h))"

text \<open>Packet 0, version 0.1, message type 5, a body of four bytes.\<close>

definition iq_frame :: "byte list" where
  "iq_frame = [0,0,0,0, 0,0,0,0,1,0,0,0, 5,0,0,0, 0,0,0,0, 4,0,0,0, 1,0,2,0]"

text \<open>The same frame from a server of version 0.2.\<close>

definition minor2_frame :: "byte list" where
  "minor2_frame = [0,0,0,0, 0,0,0,0,2,0,0,0, 5,0,0,0, 0,0,0,0, 4,0,0,0, 1,0,2,0]"

text \<open>A header of version 0.1 that declares a body of \<open>2 ^ 20 + 1\<close> bytes.\<close>

definition oversize_header :: "byte list" where
  "oversize_header = [0,0,0,0, 0,0,0,0,1,0,0,0, 5,0,0,0, 0,0,0,0, 1,0,16,0]"

text \<open>A client in the reading phase, with a callback set: the header \<open>h\<close> is stored, a
  body buffer of the size it declares is allocated, the cursor is 0 and the last frame
  seen carried the packet number \<open>lastSeq\<close>.\<close>

definition awaiting_body :: "protocol_consts \<Rightarrow> MessageHeader \<Rightarrow> uint32 \<Rightarrow> RadioClient" where
  "awaiting_body K h lastSeq =
     (connected K (SetCallback (MakeRadioClient K)))
       \<lparr>parserPhase := ParserReadingData, header := h,
        bodyBuffer := replicate (unat (BodySize h)) 0, lastSequenceNumber := lastSeq\<rparr>"

text \<open>A registry with one session, not streaming, under the token \<open>''t''\<close>.\<close>

definition one_session :: "(unit, nat) RadioServer" where
  "one_session = \<lparr>sessions = [''t'' \<mapsto> \<lparr>ID = ''t'', IQRunning = False\<rparr>], trace = []\<rparr>"

text \<open>A registry without sessions.\<close>

definition no_sessions :: "(unit, nat) RadioServer" where
  "no_sessions = \<lparr>sessions = Map.empty, trace = []\<rparr>"

section \<open>The frame parser\<close>

subsection \<open>The acquiring phase makes no progress\<close>

text \<open>The branch of the acquiring phase only runs its header loop while the phase is
  \<open>ParserReadingData\<close>, which it is not inside that branch: the branch changes
  neither the client nor the chunk.\<close>

lemma parseMessage_acquire_noop: "parseMessage_acquire f buffer = Some (Inr (f, buffer))"
proof (cases "parserPhase f")
  case ParserAcquiringHeader
  then have "parseMessage_headers f buffer = Some (Inr (f, buffer))"
    by (simp add: parseMessage_headers.simps)
  with ParserAcquiringHeader show ?thesis
    by (simp add: parseMessage_acquire_def)
next
  case ParserReadingData
  then show ?thesis by (simp add: parseMessage_acquire_def)
qed

lemma parseMessage_read_acquiring:
  "parserPhase f = ParserAcquiringHeader \<Longrightarrow> parseMessage_read K f buffer = Some (Inr (f, buffer))"
  by (simp add: parseMessage_read_def)

lemma parseMessage_loop_returns:
  assumes ret: "parseMessage_loop K f buffer = Some y"
  shows "\<not> (parserPhase f = ParserAcquiringHeader \<and> \<not> terminated f \<and> buffer \<noteq> [])"
proof (rule parseMessage_loop.raw_induct
    [where P = "\<lambda>K f buffer y.
       \<not> (parserPhase f = ParserAcquiringHeader \<and> \<not> terminated f \<and> buffer \<noteq> [])"])
  fix loop :: "protocol_consts \<Rightarrow> RadioClient \<Rightarrow> byte list \<Rightarrow> RadioClient outcome option"
    and K f buffer y
  assume IH: "\<And>K f buffer y. loop K f buffer = Some y \<Longrightarrow>
      \<not> (parserPhase f = ParserAcquiringHeader \<and> \<not> terminated f \<and> buffer \<noteq> [])"
  assume body: "(if buffer \<noteq> [] \<and> \<not> terminated f then
        Option.bind (parseMessage_acquire f buffer)
          (\<lambda>r. case r of
                 Inl e \<Rightarrow> Some (Inl e)
               | Inr (f1, buffer1) \<Rightarrow>
                  Option.bind (parseMessage_read K f1 buffer1)
                    (\<lambda>r. case r of
                           Inl e \<Rightarrow> Some (Inl e)
                         | Inr (f2, buffer2) \<Rightarrow> loop K f2 buffer2))
      else Some (Inr f)) = Some y"
  show "\<not> (parserPhase f = ParserAcquiringHeader \<and> \<not> terminated f \<and> buffer \<noteq> [])"
  proof
    assume st: "parserPhase f = ParserAcquiringHeader \<and> \<not> terminated f \<and> buffer \<noteq> []"
    with body have "loop K f buffer = Some y"
      by (simp add: parseMessage_acquire_noop parseMessage_read_acquiring)
    from IH [OF this] st show False by simp
  qed
next
  show "parseMessage_loop K f buffer = Some y" by (rule ret)
qed

lemma parseMessage_loop_stuck:
  "parserPhase f = ParserAcquiringHeader \<Longrightarrow> \<not> terminated f \<Longrightarrow> buffer \<noteq> [] \<Longrightarrow>
   parseMessage_loop K f buffer = None"
  using parseMessage_loop_returns [of K f buffer] by (cases "parseMessage_loop K f buffer") auto

lemma parseMessage_stuck:
  "parserPhase f = ParserAcquiringHeader \<Longrightarrow> \<not> terminated f \<Longrightarrow> buffer \<noteq> [] \<Longrightarrow>
   parseMessage K f buffer = None"
  by (simp add: parseMessage_def parseMessage_loop_stuck)

lemma connected_simps:
  "parserPhase (connected K f) = ParserAcquiringHeader"
  "terminated (connected K f) = False"
  "parserPosition (connected K f) = 0"
  "lastSequenceNumber (connected K f) = 0xFFFFFFFF"
  "droppedBuffers (connected K f) = 0"
  by (simp_all add: connected_def cleanup_def)

lemma iq_frame_header:
  "binaryRead_MessageHeader (take 24 iq_frame) =
     Some \<lparr>PacketNumber = 0, ProtocolVersion = GenProtocolVersion CurrentProtocolVersion,
       MessageType = 5, Reserved = 0, BodySize = 4\<rparr>"
  by (simp add: iq_frame_def binaryRead_MessageHeader_def field_at_def GenProtocolVersion_def
      CurrentProtocolVersion_def)

lemma valid_iq_frame: "valid_frame iq_frame"
  unfolding valid_frame_def iq_frame_header
  by (simp add: SplitProtocolVersion_def GenProtocolVersion_def CurrentProtocolVersion_def
      MaxMessageBodySize_def iq_frame_def)

lemma minor2_frame_header:
  "map_option (\<lambda>h. (Major (SplitProtocolVersion (ProtocolVersion h)),
       Minor (SplitProtocolVersion (ProtocolVersion h)), BodySize h))
     (binaryRead_MessageHeader (take 24 minor2_frame)) = Some (0, 2, 4)"
  by (simp add: minor2_frame_def binaryRead_MessageHeader_def field_at_def
      SplitProtocolVersion_def)

lemma oversize_header_size:
  "map_option BodySize (binaryRead_MessageHeader oversize_header) = Some (2 ^ 20 + 1)"
  by (simp add: oversize_header_def binaryRead_MessageHeader_def field_at_def)

lemma oversize_exceeds: "MaxMessageBodySize < 2 ^ 20 + 1"
  by (simp add: MaxMessageBodySize_def)

subsection \<open>The panics a call of the parser can raise\<close>

lemma parseBody_loop_panic:
  assumes ret: "parseBody_loop f buffer consumed = Some y"
  shows "isl y \<longrightarrow> fst (projl y) = IndexOutOfRange"
  apply (rule parseBody_loop.raw_induct
      [where P = "\<lambda>f buffer consumed y. isl y \<longrightarrow> fst (projl y) = IndexOutOfRange"])
  subgoal premises p for loop f buffer consumed y
    using p(2) by (auto simp: Let_def split: if_splits prod.splits dest: p(1))
  apply (rule ret)
  done

lemma handleNewMessage_panic:
  "handleNewMessage K f = Inl (e, f') \<Longrightarrow> e = ReadError"
  by (auto simp: handleNewMessage_def processDeviceInfo_def processClientSync_def Let_def
      split: if_splits option.splits)

lemma parseMessage_read_panic:
  "parseMessage_read K f buffer = Some (Inl (e, f')) \<Longrightarrow> e = IndexOutOfRange \<or> e = ReadError"
  using parseBody_loop_panic [of f buffer 0 "Inl (e, f')"]
  by (auto simp: parseMessage_read_def parseBody_def Let_def
      dest: handleNewMessage_panic
      split: if_splits Option.bind_splits sum.splits prod.splits)

lemma parseMessage_loop_panic:
  assumes ret: "parseMessage_loop K f buffer = Some y"
  shows "isl y \<longrightarrow> fst (projl y) = IndexOutOfRange \<or> fst (projl y) = ReadError"
  apply (rule parseMessage_loop.raw_induct
      [where P = "\<lambda>K f buffer y.
         isl y \<longrightarrow> fst (projl y) = IndexOutOfRange \<or> fst (projl y) = ReadError"])
  subgoal premises p for loop K f buffer y
    using p(2)
    by (auto simp: parseMessage_acquire_noop dest: parseMessage_read_panic p(1)
        split: if_splits Option.bind_splits sum.splits prod.splits)
  apply (rule ret)
  done

lemma parseMessage_panic:
  "parseMessage K f buffer = Some (Inl (e, f')) \<Longrightarrow> e = IndexOutOfRange \<or> e = ReadError"
  using parseMessage_loop_panic [of K "f\<lparr>downStreamBytes := downStreamBytes f + 1\<rparr>" buffer "Inl (e, f')"]
  by (simp add: parseMessage_def)


text \<open>Claim C1: every valid frame, cut into chunks of any sizes and fed in order,
  dispatches exactly one message, the same as when fed whole.  The parser does not do
  so: on a freshly connected client the call for the whole valid frame \<open>iq_frame\<close>
  does not return, and neither does the call for its first byte alone, so no message is
  dispatched either way.\<close>

theorem parseMessage_valid_frame_not_dispatched:
  "valid_frame iq_frame
   \<and> parseMessage K (connected K (SetCallback (MakeRadioClient K))) iq_frame = None
   \<and> parseMessage K (connected K (SetCallback (MakeRadioClient K))) (take 1 iq_frame) = None"
proof -
  have "iq_frame \<noteq> []" and "take 1 iq_frame \<noteq> []"
    by (simp_all add: iq_frame_def)
  then show ?thesis
    by (simp add: valid_iq_frame parseMessage_stuck connected_simps)
qed

text \<open>Claim C2: a call of the parser in the acquiring phase with a non-empty chunk copies
  bytes into the header accumulator and advances the cursor, so that the chunk is
  consumed and the call terminates.  In the code the branch of the acquiring phase
  leaves the client and the chunk as they were, and the call does not return.\<close>

theorem parseMessage_acquiring_no_progress:
  assumes "parserPhase f = ParserAcquiringHeader" and "\<not> terminated f" and "buffer \<noteq> []"
  shows "parseMessage_acquire f buffer = Some (Inr (f, buffer))
         \<and> parseMessage K f buffer = None"
  using assms by (simp add: parseMessage_acquire_noop parseMessage_stuck)

theorem parseMessage_acquiring_no_progress_witness:
  "\<forall>K. parseMessage_acquire (connected K (MakeRadioClient K)) [0]
          = Some (Inr (connected K (MakeRadioClient K), [0]))
        \<and> parseMessage K (connected K (MakeRadioClient K)) [0] = None"
proof
  fix K
  show "parseMessage_acquire (connected K (MakeRadioClient K)) [0]
          = Some (Inr (connected K (MakeRadioClient K), [0]))
        \<and> parseMessage K (connected K (MakeRadioClient K)) [0] = None"
    using parseMessage_acquiring_no_progress [of "connected K (MakeRadioClient K)" "[0]" K]
    by (simp add: connected_simps)
qed

text \<open>Claim C3: a completed header whose major or minor version differs from the
  client's makes the parser raise a fatal error before any body byte is consumed.  In the
  code no call of the parser raises that error: the frame \<open>minor2_frame\<close>, of version
  0.2 against the client's 0.1, makes the call on a freshly connected client run
  without returning.\<close>

theorem parseMessage_version_mismatch_not_raised:
  "map_option (\<lambda>h. Minor (SplitProtocolVersion (ProtocolVersion h)))
       (binaryRead_MessageHeader (take 24 minor2_frame)) = Some 2
   \<and> Minor CurrentProtocolVersion = 1
   \<and> parseMessage K (connected K (MakeRadioClient K)) minor2_frame = None
   \<and> parseMessage K f buffer \<noteq> Some (Inl (UnsupportedProtocolVersion, f'))"
proof -
  have "minor2_frame \<noteq> []"
    by (simp add: minor2_frame_def)
  then have "parseMessage K (connected K (MakeRadioClient K)) minor2_frame = None"
    by (simp add: parseMessage_stuck connected_simps)
  moreover have "map_option (\<lambda>h. Minor (SplitProtocolVersion (ProtocolVersion h)))
       (binaryRead_MessageHeader (take 24 minor2_frame)) = Some 2"
    using minor2_frame_header by auto
  moreover have "parseMessage K f buffer \<noteq> Some (Inl (UnsupportedProtocolVersion, f'))"
    using parseMessage_panic [of K f buffer UnsupportedProtocolVersion f'] by auto
  ultimately show ?thesis
    by (simp add: CurrentProtocolVersion_def)
qed

text \<open>Claim C4: a completed header that declares a body of more than \<open>2 ^ 20\<close> bytes
  makes the parser fail before it allocates a body buffer, and a body size within the
  limit gets a buffer of exactly that size.  In the code no call of the parser raises the
  size error: the header \<open>oversize_header\<close>, which declares \<open>2 ^ 20 + 1\<close> bytes, makes
  the call on a freshly connected client run without returning.\<close>

theorem parseMessage_oversize_not_raised:
  "map_option BodySize (binaryRead_MessageHeader oversize_header) = Some (2 ^ 20 + 1)
   \<and> MaxMessageBodySize < 2 ^ 20 + 1
   \<and> parseMessage K (connected K (MakeRadioClient K)) oversize_header = None
   \<and> parseMessage K f buffer \<noteq> Some (Inl (BodySizeExceeded, f'))"
proof -
  have "oversize_header \<noteq> []"
    by (simp add: oversize_header_def)
  then have "parseMessage K (connected K (MakeRadioClient K)) oversize_header = None"
    by (simp add: parseMessage_stuck connected_simps)
  moreover have "parseMessage K f buffer \<noteq> Some (Inl (BodySizeExceeded, f'))"
    using parseMessage_panic [of K f buffer BodySizeExceeded f'] by auto
  ultimately show ?thesis
    using oversize_header_size oversize_exceeds by simp
qed

subsection \<open>Completing a body\<close>















subsection \<open>Decoding sample bodies\<close>

lemma le_int16s_length: "length (le_int16s bs) = length bs div 2"
  by (induction bs rule: le_int16s.induct) simp_all

lemma le_int16s_nth:
  "2 * k + 1 < length bs \<Longrightarrow> le_int16s bs ! k = source_int16 bs k"
proof (induction bs arbitrary: k rule: le_int16s.induct)
  case (1 b0 b1 bs)
  show ?case
  proof (cases k)
    case 0
    then show ?thesis by (simp add: source_int16_def)
  next
    case (Suc j)
    with "1.prems" have "2 * j + 1 < length bs" by simp
    from "1.IH" [OF this] Suc show ?thesis
      by (simp add: source_int16_def)
  qed
qed simp_all

lemma binaryRead_int16s_nth:
  assumes "2 * n \<le> length bs" and "k < n"
  shows "binaryRead_int16s n bs ! k = source_int16 bs k"
proof -
  from assms have "2 * k + 1 < length (take (2 * n) bs)"
    by simp
  from le_int16s_nth [OF this] assms show ?thesis
    by (simp add: binaryRead_int16s_def source_int16_def)
qed

lemma fillC16_filled:
  assumes "unat i \<le> unat n" and "length arr = unat n" and "unat n < 2 ^ 30"
  shows "length (fillC16 i n tmp arr) = unat n
         \<and> (\<forall>j < unat n. fillC16 i n tmp arr ! j =
               (if unat i \<le> j then \<lparr>Real = tmp ! (2 * j), Imag = tmp ! (2 * j + 1)\<rparr>
                else arr ! j))"
  using assms
proof (induction i n tmp arr rule: fillC16.induct)
  case (1 i n tmp arr)
  show ?case
  proof (cases "i < n")
    case False
    then have "unat i = unat n"
      using "1.prems"(1) by (simp add: word_less_nat_alt)
    with False "1.prems" show ?thesis
      by (subst fillC16.simps, subst (2) fillC16.simps) simp
  next
    case True
    then have lt: "unat i < unat n"
      by (simp add: word_less_nat_alt)
    have suc: "unat (i + 1) = Suc (unat i)"
      using True by unat_arith
    have small: "unat i < 2 ^ 30"
      using lt "1.prems"(3) by simp
    have dbl: "unat (i * 2) = 2 * unat i"
      using small by (simp add: unat_word_ariths)
    have dbl1: "unat (i * 2 + 1) = 2 * unat i + 1"
      using small by (simp add: unat_word_ariths)
    let ?arr = "arr[unat i := \<lparr>Real = tmp ! unat (i * 2), Imag = tmp ! unat (i * 2 + 1)\<rparr>]"
    have step: "fillC16 i n tmp arr = fillC16 (i + 1) n tmp ?arr"
      using True by (subst fillC16.simps) simp
    have "unat (i + 1) \<le> unat n" and "length ?arr = unat n"
      using lt suc "1.prems"(2) by simp_all
    from "1.IH" [OF True this "1.prems"(3)]
    have IH: "length (fillC16 (i + 1) n tmp ?arr) = unat n"
      "\<And>j. j < unat n \<Longrightarrow> fillC16 (i + 1) n tmp ?arr ! j =
         (if Suc (unat i) \<le> j then \<lparr>Real = tmp ! (2 * j), Imag = tmp ! (2 * j + 1)\<rparr>
          else ?arr ! j)"
      by (simp_all add: suc)
    show ?thesis
      unfolding step
    proof (intro conjI allI impI)
      show "length (fillC16 (i + 1) n tmp ?arr) = unat n" by (rule IH(1))
    next
      fix j assume j: "j < unat n"
      show "fillC16 (i + 1) n tmp ?arr ! j =
         (if unat i \<le> j then \<lparr>Real = tmp ! (2 * j), Imag = tmp ! (2 * j + 1)\<rparr> else arr ! j)"
      proof (cases "j = unat i")
        case True
        then show ?thesis
          using IH(2) [OF j] lt "1.prems"(2) by (simp add: dbl dbl1)
      next
        case False
        then show ?thesis
          using IH(2) [OF j] by auto
      qed
    qed
  qed
qed

lemma decodeSamples_pairs:
  assumes alloc: "length (bodyBuffer f) = unat (BodySize (header f))"
  shows "length (decodeSamples f) = unat (BodySize (header f)) div 4
         \<and> (\<forall>i < length (decodeSamples f).
               Real (decodeSamples f ! i) = source_int16 (bodyBuffer f) (2 * i)
               \<and> Imag (decodeSamples f ! i) = source_int16 (bodyBuffer f) (2 * i + 1))"
proof -
  let ?B = "BodySize (header f)"
  let ?n = "?B div 4"
  let ?tmp = "binaryRead_int16s (unat (?n * 2)) (bodyBuffer f)"
  have n: "unat ?n = unat ?B div 4"
    by (simp add: unat_div)
  have "unat ?B < 2 ^ 32"
    using unsigned_less [of ?B, where ?'a = nat] by simp
  then have small: "unat ?n < 2 ^ 30"
    unfolding n by simp
  have twice: "unat (?n * 2) = 2 * unat ?n"
    using small by (simp add: unat_word_ariths)
  have fits: "2 * unat (?n * 2) \<le> length (bodyBuffer f)"
    unfolding twice n alloc by simp
  have "unat (0 :: uint32) \<le> unat ?n"
    and "length (replicate (unat ?n) \<lparr>Real = 0 :: int16, Imag = 0\<rparr>) = unat ?n"
    by simp_all
  from fillC16_filled [OF this small, of ?tmp]
  have len: "length (decodeSamples f) = unat ?n"
    and nth: "\<And>j. j < unat ?n \<Longrightarrow>
      decodeSamples f ! j = \<lparr>Real = ?tmp ! (2 * j), Imag = ?tmp ! (2 * j + 1)\<rparr>"
    by (simp_all add: decodeSamples_def Let_def)
  show ?thesis
  proof (intro conjI allI impI)
    show "length (decodeSamples f) = unat ?B div 4"
      using len n by simp
  next
    fix i assume "i < length (decodeSamples f)"
    then have i: "i < unat ?n" using len by simp
    then have "2 * i < unat (?n * 2)" and "2 * i + 1 < unat (?n * 2)"
      unfolding twice by simp_all
    then show "Real (decodeSamples f ! i) = source_int16 (bodyBuffer f) (2 * i)"
      and "Imag (decodeSamples f ! i) = source_int16 (bodyBuffer f) (2 * i + 1)"
      using nth [OF i] binaryRead_int16s_nth [OF fits] by simp_all
  qed
qed

text \<open>\<^verbatim>\<open>handleNewMessage\<close> hands a frame of type IQ to \<^verbatim>\<open>processIQ\<close> and one of
  type SmartIQ to \<^verbatim>\<open>processSmartIQ\<close>, the message types being distinct constants.\<close>

lemma handleNewMessage_IQ:
  assumes "\<not> terminated f"
    and "MsgTypeIQ K \<noteq> MsgTypeDeviceInfo K" and "MsgTypeIQ K \<noteq> MsgTypeClientSync K"
    and "MessageType (header f) = MsgTypeIQ K"
  shows "handleNewMessage K f = Inr (processIQ K f)"
  using assms by (simp add: handleNewMessage_def)

lemma handleNewMessage_SmartIQ:
  assumes "\<not> terminated f"
    and "MsgTypeSmartIQ K \<noteq> MsgTypeDeviceInfo K" and "MsgTypeSmartIQ K \<noteq> MsgTypeClientSync K"
    and "MsgTypeSmartIQ K \<noteq> MsgTypeIQ K"
    and "MessageType (header f) = MsgTypeSmartIQ K"
  shows "handleNewMessage K f = Inr (processSmartIQ K f)"
  using assms by (simp add: handleNewMessage_def)

text \<open>Claim C6: for an IQ or SmartIQ frame whose body holds little-endian interleaved
  16-bit integers, the decoder produces exactly \<open>bodySize / 4\<close> complex pairs, pair
  \<open>i\<close> having source integer \<open>2 i\<close> as its real part and source integer \<open>2 i + 1\<close>
  as its imaginary part, and passes them to the data callback; a body of 1024 samples
  (4096 bytes) yields 1024 pairs.  The body buffer has the size the header declares, and
  a callback is set (\<open>calls\<close> are the calls it has received before).\<close>

theorem iq_body_decoded:
  assumes "callback f = Some calls"
    and "length (bodyBuffer f) = unat (BodySize (header f))"
  shows "\<exists>pairs.
           processIQ K f = f\<lparr>callback := Some (calls @ [(SamplesComplex32 K, Samples pairs)])\<rparr>
         \<and> processSmartIQ K f =
             f\<lparr>callback := Some (calls @ [(SmartSamplesComplex32 K, Samples pairs)])\<rparr>
         \<and> length pairs = unat (BodySize (header f)) div 4
         \<and> (\<forall>i < length pairs.
               Real (pairs ! i) = source_int16 (bodyBuffer f) (2 * i)
               \<and> Imag (pairs ! i) = source_int16 (bodyBuffer f) (2 * i + 1))
         \<and> (BodySize (header f) = 4096 \<longrightarrow> length pairs = 1024)"
proof (intro exI [of _ "decodeSamples f"] conjI)
  show "processIQ K f =
      f\<lparr>callback := Some (calls @ [(SamplesComplex32 K, Samples (decodeSamples f))])\<rparr>"
    using assms(1) by (simp add: processIQ_def OnData_def)
  show "processSmartIQ K f =
      f\<lparr>callback := Some (calls @ [(SmartSamplesComplex32 K, Samples (decodeSamples f))])\<rparr>"
    using assms(1) by (simp add: processSmartIQ_def OnData_def)
  show len: "length (decodeSamples f) = unat (BodySize (header f)) div 4"
    using decodeSamples_pairs [OF assms(2)] by simp
  show "\<forall>i < length (decodeSamples f).
               Real (decodeSamples f ! i) = source_int16 (bodyBuffer f) (2 * i)
               \<and> Imag (decodeSamples f ! i) = source_int16 (bodyBuffer f) (2 * i + 1)"
    using decodeSamples_pairs [OF assms(2)] by simp
  show "BodySize (header f) = 4096 \<longrightarrow> length (decodeSamples f) = 1024"
    using len by simp
qed

theorem iq_body_decoded_witness:
  "\<forall>K. \<exists>pairs.
      processIQ K ((awaiting_body K \<lparr>PacketNumber = 0, ProtocolVersion = 0x100000000,
            MessageType = 0, Reserved = 0, BodySize = 8\<rparr> 0)
          \<lparr>bodyBuffer := [1, 0, 2, 0, 0xFF, 0xFF, 0, 1]\<rparr>)
        = (awaiting_body K \<lparr>PacketNumber = 0, ProtocolVersion = 0x100000000,
            MessageType = 0, Reserved = 0, BodySize = 8\<rparr> 0)
          \<lparr>bodyBuffer := [1, 0, 2, 0, 0xFF, 0xFF, 0, 1],
           callback := Some [(SamplesComplex32 K, Samples pairs)]\<rparr>
      \<and> length pairs = 2
      \<and> Real (pairs ! 0) = 1 \<and> Imag (pairs ! 0) = 2
      \<and> Real (pairs ! 1) = 0xFFFF \<and> Imag (pairs ! 1) = 0x100"
proof
  fix K
  let ?f = "(awaiting_body K \<lparr>PacketNumber = 0, ProtocolVersion = 0x100000000,
            MessageType = 0, Reserved = 0, BodySize = 8\<rparr> 0)
          \<lparr>bodyBuffer := [1, 0, 2, 0, 0xFF, 0xFF, 0, 1]\<rparr>"
  have cb: "callback ?f = Some []"
    by (simp add: awaiting_body_def connected_def cleanup_def SetCallback_def)
  have al: "length (bodyBuffer ?f) = unat (BodySize (header ?f))"
    by (simp add: awaiting_body_def)
  from iq_body_decoded [OF cb al, of K]
  obtain pairs where
    p: "processIQ K ?f = ?f\<lparr>callback := Some ([] @ [(SamplesComplex32 K, Samples pairs)])\<rparr>"
    and l: "length pairs = unat (BodySize (header ?f)) div 4"
    and e: "\<forall>i < length pairs.
               Real (pairs ! i) = source_int16 (bodyBuffer ?f) (2 * i)
               \<and> Imag (pairs ! i) = source_int16 (bodyBuffer ?f) (2 * i + 1)"
    by blast
  from l have l2: "length pairs = 2"
    by (simp add: awaiting_body_def)
  have "0 < length pairs" and "1 < length pairs"
    using l2 by simp_all
  from e [rule_format, OF this(1)] e [rule_format, OF this(2)]
  have v: "Real (pairs ! 0) = 1" "Imag (pairs ! 0) = 2"
    "Real (pairs ! 1) = 0xFFFF" "Imag (pairs ! 1) = 0x100"
    by (simp_all add: source_int16_def)
  from p l2 v show "\<exists>pairs.
      processIQ K ?f = ?f\<lparr>callback := Some [(SamplesComplex32 K, Samples pairs)]\<rparr>
      \<and> length pairs = 2
      \<and> Real (pairs ! 0) = 1 \<and> Imag (pairs ! 0) = 2
      \<and> Real (pairs ! 1) = 0xFFFF \<and> Imag (pairs ! 1) = 0x100"
    by (intro exI [of _ pairs]) simp
qed

section \<open>The session registry and the streaming pipeline\<close>

lemma added_append: "trace rs' = trace rs @ evs \<Longrightarrow> added rs rs' = evs"
  by (simp add: added_def)

lemma RXIQ_loop_trace:
  "RXIQ_loop s ticks rs = Some (err, rs') \<Longrightarrow>
   sessions rs' = sessions rs
   \<and> (\<exists>evs. trace rs' = trace rs @ evs \<and> filter cleanup_event evs = [])
   \<and> (err = session_expired \<or> (\<exists>msg. err = send_error msg))"
proof (induction s ticks rs rule: RXIQ_loop.induct)
  case (1 s rs)
  then show ?case by simp
next
  case (2 s ticks rs)
  then show ?case by simp
next
  case (3 s samples sendErr expired ticks rs)
  show ?case
  proof (cases sendErr)
    case (Some msg)
    with "3.prems" show ?thesis
      by (auto simp: emit_def)
  next
    case None
    show ?thesis
    proof (cases expired)
      case True
      with None "3.prems" show ?thesis
        by (auto simp: emit_def)
    next
      case False
      let ?rs1 = "emit (KeepAlive (ID s)) (emit (Send samples) rs)"
      from None False "3.prems" have run: "RXIQ_loop s ticks ?rs1 = Some (err, rs')"
        by simp
      from "3.IH" [OF None refl False this]
      obtain evs where "sessions rs' = sessions ?rs1"
        and "trace rs' = trace ?rs1 @ evs" and "filter cleanup_event evs = []"
        and "err = session_expired \<or> (\<exists>msg. err = send_error msg)"
        by blast
      then show ?thesis
        by (auto simp: emit_def)
    qed
  qed
qed

text \<open>The delivery loop returns as soon as it observes a failed push or an expired
  session; until then it runs.\<close>

lemma RXIQ_loop_ends:
  "sendErr \<noteq> None \<or> expired \<Longrightarrow>
   \<exists>r. RXIQ_loop s (ticks @ Buffer samples sendErr expired # rest) rs = Some r"
proof (induction ticks arbitrary: rs)
  case Nil
  then show ?case
    by (cases sendErr) (auto simp: Let_def)
next
  case (Cons t ticks)
  show ?case
  proof (cases t)
    case Idle
    with Cons.IH [OF Cons.prems] show ?thesis by simp
  next
    case (Buffer smp err ex)
    with Cons.IH [OF Cons.prems] show ?thesis
      by (cases err) (auto simp: Let_def)
  qed
qed

lemma RXIQ_ends:
  assumes "sendErr \<noteq> None \<or> expired"
  shows "\<exists>r. RXIQ rs token (ticks @ Buffer samples sendErr expired # rest) = Some r"
proof (cases "sessions rs token")
  case None
  then show ?thesis
    by (simp add: RXIQ_def emit_def Let_def)
next
  case (Some s)
  let ?s1 = "s\<lparr>IQRunning := True\<rparr>"
  let ?rs2 = "(emit (StartIQ (ID s)) (emit (MapRead token) rs))
      \<lparr>sessions := (sessions (emit (MapRead token) rs))(token \<mapsto> ?s1)\<rparr>"
  from RXIQ_loop_ends [OF assms, of ?s1 ticks samples rest ?rs2]
  obtain err rs3 where
    "RXIQ_loop ?s1 (ticks @ Buffer samples sendErr expired # rest) ?rs2 = Some (err, rs3)"
    by auto
  with Some show ?thesis
    by (cases "IQRunning s") (simp_all add: RXIQ_def emit_def Let_def)
qed

lemma RXIQ_unknown_token:
  "sessions rs token = None \<Longrightarrow>
   RXIQ rs token ticks = Some (NilPointerDereference, emit (MapRead token) rs)"
  by (simp add: RXIQ_def emit_def Let_def)

lemma RXIQ_trace:
  "RXIQ rs token ticks = Some (r, rs') \<Longrightarrow> \<exists>evs. trace rs' = trace rs @ MapRead token # evs"
  by (auto simp: RXIQ_def emit_def Let_def dest!: RXIQ_loop_trace
      split: option.splits if_splits prod.splits)

text \<open>Claim C7: every registry operation that looks up, creates or deletes a session
  entry (Provision, Destroy, Tune and the lookup of RXIQ) accesses the map of sessions
  while it holds the session lock.  \<^verbatim>\<open>Provision\<close> and \<^verbatim>\<open>Destroy\<close> do; \<^verbatim>\<open>Tune\<close>
  and \<^verbatim>\<open>RXIQ\<close> never take the lock, and their first event is a read of the map.\<close>

theorem registry_access_outside_lock:
  "guarded False (added rs (snd (Provision rs generated)))
   \<and> guarded False (added rs (snd (Destroy rs token)))
   \<and> \<not> guarded False (added rs (snd (Tune rs token config)))
   \<and> (case RXIQ rs token ticks of
         None \<Rightarrow> True
       | Some (r, rs') \<Rightarrow> \<not> guarded False (added rs rs'))"
proof (intro conjI)
  show "guarded False (added rs (snd (Provision rs generated)))"
    by (simp add: Provision_def emit_def added_def Let_def split: option.splits)
  show "guarded False (added rs (snd (Destroy rs token)))"
    by (simp add: Destroy_def emit_def added_def Let_def split: option.splits)
  show "\<not> guarded False (added rs (snd (Tune rs token config)))"
    by (simp add: Tune_def emit_def added_def Let_def split: option.splits)
  show "case RXIQ rs token ticks of
         None \<Rightarrow> True
       | Some (r, rs') \<Rightarrow> \<not> guarded False (added rs rs')"
  proof (cases "RXIQ rs token ticks")
    case None
    then show ?thesis by simp
  next
    case (Some a)
    obtain r rs' where a: "a = (r, rs')" by (cases a)
    from RXIQ_trace [OF Some [unfolded a]]
    obtain evs where "trace rs' = trace rs @ MapRead token # evs" ..
    from added_append [OF this] Some a show ?thesis
      by simp
  qed
qed

text \<open>Claim C8: for a token without an entry \<^verbatim>\<open>Destroy\<close> returns an error and leaves
  the registry as it is, stopping no session, and \<^verbatim>\<open>Tune\<close> returns an error and
  forwards no configuration; for a known token \<^verbatim>\<open>Destroy\<close> removes exactly that
  entry and requests the full stop of its session.\<close>

theorem Destroy_Tune_by_token:
  "(sessions rs token = None \<longrightarrow>
      Destroy rs token
        = (Failed session_doesnt_exist, rs\<lparr>trace := trace rs @ [Lock, MapRead token, Unlock]\<rparr>)
      \<and> Tune rs token config
        = (Failed session_doesnt_exist, rs\<lparr>trace := trace rs @ [MapRead token]\<rparr>))
   \<and> (sessions rs token = Some s \<longrightarrow>
      Destroy rs token
        = (Reply (), rs\<lparr>sessions := (sessions rs)(token := None),
             trace := trace rs @ [Lock, MapRead token, MapDelete token, FullStop (ID s), Unlock]\<rparr>))"
  by (simp add: Destroy_def Tune_def emit_def Let_def)

theorem Destroy_Tune_by_token_witness:
  "Destroy no_sessions ''t''
     = (Failed session_doesnt_exist, no_sessions\<lparr>trace := [Lock, MapRead ''t'', Unlock]\<rparr>)
   \<and> Tune no_sessions ''t'' ()
     = (Failed session_doesnt_exist, no_sessions\<lparr>trace := [MapRead ''t'']\<rparr>)
   \<and> Destroy one_session ''t''
     = (Reply (), \<lparr>sessions = Map.empty,
          trace = [Lock, MapRead ''t'', MapDelete ''t'', FullStop ''t'', Unlock]\<rparr>)"
  using Destroy_Tune_by_token [of no_sessions "''t''" "()"]
    Destroy_Tune_by_token [of one_session "''t''" "()" "\<lparr>ID = ''t'', IQRunning = False\<rparr>"]
  by (simp add: no_sessions_def one_session_def)

text \<open>Claim C9: on every path on which an attached \<^verbatim>\<open>RXIQ\<close> pipeline that passed the
  already-running check ends (a failed push to the transport, the session found
  expired, or any other return) the entry of the session is removed from the registry and
  the full stop of the device session is invoked, each exactly once.  The only returns
  past the check are the two named ones.\<close>

theorem RXIQ_releases_session_on_return:
  assumes "sessions rs token = Some s" and "\<not> IQRunning s"
    and "RXIQ rs token ticks = Some (r, rs')"
  shows "sessions rs' token = None
         \<and> filter cleanup_event (added rs rs') = [FullStop (ID s), MapDelete token]
         \<and> (r = Failed session_expired \<or> (\<exists>msg. r = Failed (send_error msg)))"
proof -
  let ?s1 = "s\<lparr>IQRunning := True\<rparr>"
  let ?rs1 = "emit (MapRead token) rs"
  let ?rs2 = "(emit (StartIQ (ID s)) ?rs1)\<lparr>sessions := (sessions ?rs1)(token \<mapsto> ?s1)\<rparr>"
  from assms obtain err rs3 where loop: "RXIQ_loop ?s1 ticks ?rs2 = Some (err, rs3)"
    and r: "r = Failed err"
    and rs': "rs' = (emit (MapDelete token) (emit (FullStop (ID ?s1)) rs3))
                \<lparr>sessions := (sessions (emit (FullStop (ID ?s1)) rs3))(token := None)\<rparr>"
    by (auto simp: RXIQ_def emit_def Let_def split: option.splits)
  from RXIQ_loop_trace [OF loop]
  obtain evs where tr: "trace rs3 = trace ?rs2 @ evs" and quiet: "filter cleanup_event evs = []"
    and err: "err = session_expired \<or> (\<exists>msg. err = send_error msg)"
    by blast
  have "trace rs' = trace rs @ ([MapRead token, StartIQ (ID s)] @ evs
          @ [FullStop (ID s), MapDelete token])"
    using tr by (simp add: rs' emit_def)
  from added_append [OF this] quiet
  have "filter cleanup_event (added rs rs') = [FullStop (ID s), MapDelete token]"
    by simp
  moreover have "sessions rs' token = None"
    by (simp add: rs')
  ultimately show ?thesis
    using r err by simp
qed

theorem RXIQ_releases_session_on_return_witness:
  "(\<exists>rs'. RXIQ one_session ''t'' [Idle, Buffer [1, 2] None False, Buffer [3] (Some ''EOF'') False]
            = Some (Failed (send_error ''EOF''), rs')
        \<and> sessions rs' ''t'' = None
        \<and> filter cleanup_event (added one_session rs') = [FullStop ''t'', MapDelete ''t''])
   \<and> (\<exists>rs'. RXIQ one_session ''t'' [Buffer [1, 2] None True] = Some (Failed session_expired, rs')
        \<and> sessions rs' ''t'' = None
        \<and> filter cleanup_event (added one_session rs') = [FullStop ''t'', MapDelete ''t''])"
proof -
  have s: "sessions one_session ''t'' = Some \<lparr>ID = ''t'', IQRunning = False\<rparr>"
    and n: "\<not> IQRunning \<lparr>ID = ''t'', IQRunning = False\<rparr>"
    by (simp_all add: one_session_def)
  obtain rs1 where r1: "RXIQ one_session ''t''
        [Idle, Buffer [1, 2] None False, Buffer [3] (Some ''EOF'') False]
      = Some (Failed (send_error ''EOF''), rs1)"
    by (simp add: RXIQ_def one_session_def emit_def Let_def)
  obtain rs2 where r2: "RXIQ one_session ''t'' [Buffer [1, 2] None True]
      = Some (Failed session_expired, rs2)"
    by (simp add: RXIQ_def one_session_def emit_def Let_def)
  from RXIQ_releases_session_on_return [OF s n r1] RXIQ_releases_session_on_return [OF s n r2]
    r1 r2
  show ?thesis by simp
qed

text \<open>Claim C10: a call of \<^verbatim>\<open>RXIQ\<close> with a token that has no entry fails by
  returning an error, without faulting: the unknown token is handled before any field of
  the session is read.  The code has no such check: with an empty registry the call
  panics on the nil session, after its read of the map.\<close>

theorem RXIQ_unknown_token_faults:
  "RXIQ no_sessions ''t'' ticks
     = Some (NilPointerDereference, no_sessions\<lparr>trace := [MapRead ''t'']\<rparr>)"
  using RXIQ_unknown_token [of no_sessions "''t''" ticks]
  by (simp add: no_sessions_def emit_def)


end
